theory Spec2Isabelle
  imports Main "HOL-Library.Product_Lexorder" "HOL-Library.Multiset"
begin

section \<open>Data model of the parsed presentation\<close>

text \<open>
  The program (\<^verbatim>\<open>src/app.py\<close>) reads a presentation through the python-pptx object
  model. A Python \<^verbatim>\<open>str\<close> is a sequence of Unicode code points; it is modelled as a
  list of natural numbers, one per code point, so that the whitespace table of
  \<^verbatim>\<open>str.strip\<close> can be written out in full. \<open>py\<close> turns an Isabelle string literal into
  such a list.
\<close>

type_synonym pychar = nat
type_synonym pystr = "pychar list"

definition py :: "string \<Rightarrow> pystr" where
  "py s = map of_char s"

text \<open>The members of python-pptx's \<^verbatim>\<open>PP_PLACEHOLDER\<close> enumeration.\<close>

datatype PP_PLACEHOLDER =
    BITMAP | BODY | CENTER_TITLE | CHART | DATE | FOOTER | HEADER | MEDIA_CLIP
  | OBJECT | ORG_CHART | PICTURE | SLIDE_IMAGE | SLIDE_NUMBER | SUBTITLE | TABLE
  | TITLE | VERTICAL_BODY | VERTICAL_OBJECT | VERTICAL_TITLE | MIXED

text \<open>\<^verbatim>\<open>shape.placeholder_format\<close>: the fields \<^verbatim>\<open>idx\<close> and \<^verbatim>\<open>type\<close>.\<close>

record placeholder_format =
  idx :: int
  ph_type :: PP_PLACEHOLDER

text \<open>
  A shape that is not a group. Every attribute the program probes with \<^verbatim>\<open>hasattr\<close> or
  \<^verbatim>\<open>is not None\<close> is an option: \<open>shape_top\<close> and \<open>shape_left\<close> are \<^verbatim>\<open>shape.top.emu\<close> and
  \<^verbatim>\<open>shape.left.emu\<close> (unbounded Python integers) when present, \<open>shape_ph\<close> is the
  placeholder format of a placeholder shape (\<^verbatim>\<open>is_placeholder\<close> is false when it is
  \<open>None\<close>), and \<open>shape_text\<close> is \<^verbatim>\<open>shape.text\<close> when the shape has that attribute.
\<close>

record leaf =
  shape_top :: "int option"
  shape_left :: "int option"
  shape_ph :: "placeholder_format option"
  shape_text :: "pystr option"

text \<open>
  A shape of a slide's shape tree, by what reading \<^verbatim>\<open>shape.shape_type\<close> on line 46 does:
  it is \<^verbatim>\<open>MSO_SHAPE_TYPE.GROUP\<close>, for a group with its own offset and its children
  \<^verbatim>\<open>shape.shapes\<close>; or it is another value, for any other shape; or the read raises
  \<^verbatim>\<open>NotImplementedError\<close> with the given message, as python-pptx does for a shape it
  cannot classify (a \<^verbatim>\<open>p:sp\<close> element without geometry, text box or placeholder:
  \<^verbatim>\<open>Shape instance of unrecognized shape type\<close>). Nothing the program reads from such a
  shape before line 46 is observable, so only the message is kept.
\<close>

datatype shape =
    Group "int option" "int option" "shape list"
  | Leaf leaf
  | Unrecognized pystr

text \<open>
  An exception raised inside the \<^verbatim>\<open>try\<close> block, by its message \<^verbatim>\<open>str(e)\<close>:
  \<^verbatim>\<open>NotImplementedError\<close> from \<^verbatim>\<open>shape.shape_type\<close>, and \<^verbatim>\<open>ValueError\<close>, which python-pptx
  raises with the message \<^verbatim>\<open>shape is not a placeholder\<close> when \<^verbatim>\<open>placeholder_format\<close> is read
  on a shape whose \<^verbatim>\<open>is_placeholder\<close> is false. \<open>Exception\<close> is what line 85 raises.
\<close>

datatype exn = NotImplementedError pystr | ValueError pystr | Exception pystr

fun str_exn :: "exn \<Rightarrow> pystr" where
  "str_exn (NotImplementedError m) = m"
| "str_exn (ValueError m) = m"
| "str_exn (Exception m) = m"

text \<open>The dictionary \<^verbatim>\<open>{'shape': shape, 'top': abs_top, 'left': abs_left}\<close>.\<close>

record info =
  info_shape :: leaf
  info_top :: int
  info_left :: int

record master =
  master_placeholders :: "leaf list"

record layout =
  layout_placeholders :: "leaf list"
  slide_master :: master

record slide =
  shapes :: "shape list"
  slide_layout :: layout

type_synonym presentation = "slide list"

section \<open>Flattening the shape tree\<close>

text \<open>
  \<^verbatim>\<open>x.emu if hasattr(shape, 'x') and shape.x is not None else 0\<close>
\<close>

definition emu_or_0 :: "int option \<Rightarrow> int" where
  "emu_or_0 v = (case v of None \<Rightarrow> 0 | Some e \<Rightarrow> e)"

definition is_placeholder :: "leaf \<Rightarrow> bool" where
  "is_placeholder s = (shape_ph s \<noteq> None)"

text \<open>
  \<^verbatim>\<open>get_shapes_with_abs_position(shapes, parent_top, parent_left)\<close>, lines 39 to 50. The
  \<^verbatim>\<open>for\<close> loop is the recursion on the list; \<^verbatim>\<open>extend\<close> and \<^verbatim>\<open>append\<close> put the records of
  the first shape before those of the rest. The shapes are visited in order, a group's
  children before the shapes after the group, and the first shape whose
  \<^verbatim>\<open>shape_type\<close> cannot be read ends the call with its exception.
\<close>

fun get_shapes_with_abs_position :: "shape list \<Rightarrow> int \<Rightarrow> int \<Rightarrow> exn + info list" where
  "get_shapes_with_abs_position [] parent_top parent_left = Inr []"
| "get_shapes_with_abs_position (Group t l children # rest) parent_top parent_left =
     (case get_shapes_with_abs_position children
             (parent_top + emu_or_0 t) (parent_left + emu_or_0 l) of
        Inl e \<Rightarrow> Inl e
      | Inr sub \<Rightarrow>
          (case get_shapes_with_abs_position rest parent_top parent_left of
             Inl e \<Rightarrow> Inl e
           | Inr others \<Rightarrow> Inr (sub @ others)))"
| "get_shapes_with_abs_position (Leaf s # rest) parent_top parent_left =
     (case get_shapes_with_abs_position rest parent_top parent_left of
        Inl e \<Rightarrow> Inl e
      | Inr others \<Rightarrow>
          Inr (\<lparr>info_shape = s,
                info_top = parent_top + emu_or_0 (shape_top s),
                info_left = parent_left + emu_or_0 (shape_left s)\<rparr> # others))"
| "get_shapes_with_abs_position (Unrecognized msg # rest) parent_top parent_left =
     Inl (NotImplementedError msg)"

text \<open>
  The specification's reading of flattening, written independently of the program: every
  non-group shape of the tree, in authored order, together with the offsets of the groups
  that enclose it (outermost first). A shape whose type cannot be read is not a shape of
  the specification's data model and has no record.
\<close>

fun spec_leaves :: "shape \<Rightarrow> ((int option \<times> int option) list \<times> leaf) list" where
  "spec_leaves (Leaf s) = [([], s)]"
| "spec_leaves (Group t l children) =
     map (\<lambda>(path, s). ((t, l) # path, s)) (concat (map spec_leaves children))"
| "spec_leaves (Unrecognized msg) = []"

definition spec_record :: "int \<Rightarrow> int \<Rightarrow> (int option \<times> int option) list \<times> leaf \<Rightarrow> info" where
  "spec_record root_top root_left pl =
     \<lparr>info_shape = snd pl,
      info_top = root_top + sum_list (map (emu_or_0 \<circ> fst) (fst pl)) + emu_or_0 (shape_top (snd pl)),
      info_left = root_left + sum_list (map (emu_or_0 \<circ> snd) (fst pl)) + emu_or_0 (shape_left (snd pl))\<rparr>"

fun count_leaves :: "shape \<Rightarrow> nat" where
  "count_leaves (Leaf s) = 1"
| "count_leaves (Group t l children) = sum_list (map count_leaves children)"
| "count_leaves (Unrecognized msg) = 0"

text \<open>
  The message of the first shape, in the order of the traversal, whose type cannot be
  read; \<open>None\<close> when the type of every shape of the tree can be read.
\<close>

fun first_unrecognized :: "shape list \<Rightarrow> pystr option" where
  "first_unrecognized [] = None"
| "first_unrecognized (Group t l children # rest) =
     (case first_unrecognized children of
        Some m \<Rightarrow> Some m
      | None \<Rightarrow> first_unrecognized rest)"
| "first_unrecognized (Leaf s # rest) = first_unrecognized rest"
| "first_unrecognized (Unrecognized msg # rest) = Some msg"

section \<open>Placeholder backfill\<close>

definition placeholder_format_of :: "leaf \<Rightarrow> exn + placeholder_format" where
  "placeholder_format_of s =
     (case shape_ph s of
        None \<Rightarrow> Inl (ValueError (py ''shape is not a placeholder''))
      | Some pf \<Rightarrow> Inr pf)"

text \<open>
  Lines 55 to 59: the set comprehension. The condition \<^verbatim>\<open>is_placeholder\<close> is evaluated before
  \<^verbatim>\<open>placeholder_format\<close> is read, so the read never raises; guard and read are one \<open>case\<close>.
\<close>

fun placeholder_idxs :: "info list \<Rightarrow> int set" where
  "placeholder_idxs [] = {}"
| "placeholder_idxs (i # rest) =
     (case shape_ph (info_shape i) of
        None \<Rightarrow> placeholder_idxs rest
      | Some pf \<Rightarrow> insert (idx pf) (placeholder_idxs rest))"

text \<open>Lines 62 to 64 (and 68 to 70): the record of a layout or master placeholder.\<close>

definition placeholder_record :: "leaf \<Rightarrow> info" where
  "placeholder_record s =
     \<lparr>info_shape = s,
      info_top = emu_or_0 (shape_top s),
      info_left = emu_or_0 (shape_left s)\<rparr>"

text \<open>
  Lines 60 to 65: the loop over \<^verbatim>\<open>slide.slide_layout.placeholders\<close>, threading the two
  mutated locals \<^verbatim>\<open>all_shape_infos\<close> and \<^verbatim>\<open>added_placeholder_idxs\<close>.
\<close>

fun backfill_layout :: "leaf list \<Rightarrow> info list \<Rightarrow> int set \<Rightarrow> exn + (info list \<times> int set)" where
  "backfill_layout [] all_shape_infos added_placeholder_idxs =
     Inr (all_shape_infos, added_placeholder_idxs)"
| "backfill_layout (s # rest) all_shape_infos added_placeholder_idxs =
     (case placeholder_format_of s of
        Inl e \<Rightarrow> Inl e
      | Inr pf \<Rightarrow>
          if idx pf \<notin> added_placeholder_idxs
          then backfill_layout rest (all_shape_infos @ [placeholder_record s])
                 (insert (idx pf) added_placeholder_idxs)
          else backfill_layout rest all_shape_infos added_placeholder_idxs)"

text \<open>
  Lines 66 to 70: the loop over the master's placeholders. It appends to
  \<^verbatim>\<open>all_shape_infos\<close> but does not update \<^verbatim>\<open>added_placeholder_idxs\<close>.
\<close>

fun backfill_master :: "leaf list \<Rightarrow> info list \<Rightarrow> int set \<Rightarrow> exn + info list" where
  "backfill_master [] all_shape_infos added_placeholder_idxs = Inr all_shape_infos"
| "backfill_master (s # rest) all_shape_infos added_placeholder_idxs =
     (case placeholder_format_of s of
        Inl e \<Rightarrow> Inl e
      | Inr pf \<Rightarrow>
          if idx pf \<notin> added_placeholder_idxs
          then backfill_master rest (all_shape_infos @ [placeholder_record s])
                 added_placeholder_idxs
          else backfill_master rest all_shape_infos added_placeholder_idxs)"

text \<open>Lines 54 to 70: the candidate records of one slide.\<close>

definition all_shape_infos :: "slide \<Rightarrow> exn + info list" where
  "all_shape_infos sl =
     (case get_shapes_with_abs_position (shapes sl) 0 0 of
        Inl e \<Rightarrow> Inl e
      | Inr slide_records \<Rightarrow>
          (case backfill_layout (layout_placeholders (slide_layout sl)) slide_records
                  (placeholder_idxs slide_records) of
             Inl e \<Rightarrow> Inl e
           | Inr (with_layout, added) \<Rightarrow>
               backfill_master (master_placeholders (slide_master (slide_layout sl)))
                 with_layout added))"

text \<open>
  The contract of python-pptx on \<^verbatim>\<open>.placeholders\<close>: the collection holds placeholder shapes
  only.
\<close>

definition wf_slide :: "slide \<Rightarrow> bool" where
  "wf_slide sl =
     (list_all is_placeholder (layout_placeholders (slide_layout sl)) \<and>
      list_all is_placeholder (master_placeholders (slide_master (slide_layout sl))))"


section \<open>Sorting and text assembly\<close>

text \<open>\<^verbatim>\<open>str(i)\<close> for the slide index, which \<^verbatim>\<open>enumerate(..., 1)\<close> keeps positive.\<close>

fun str :: "nat \<Rightarrow> pystr" where
  "str n = (if n < 10 then [48 + n] else str (n div 10) @ [48 + n mod 10])"

declare str.simps [simp del]

text \<open>
  \<^verbatim>\<open>str.strip()\<close> removes the leading and the trailing run of whitespace code points; the
  table is the one of CPython's \<^verbatim>\<open>_PyUnicode_IsWhitespace\<close>.
\<close>

definition isspace :: "pychar \<Rightarrow> bool" where
  "isspace c =
     ((9 \<le> c \<and> c \<le> 13) \<or> (28 \<le> c \<and> c \<le> 32) \<or> c = 133 \<or> c = 160 \<or> c = 5760 \<or>
      (8192 \<le> c \<and> c \<le> 8202) \<or> c = 8232 \<or> c = 8233 \<or> c = 8239 \<or> c = 8287 \<or> c = 12288)"

definition strip :: "pystr \<Rightarrow> pystr" where
  "strip s = rev (dropWhile isspace (rev (dropWhile isspace s)))"

text \<open>Line 71: \<^verbatim>\<open>hasattr(info['shape'], "text")\<close>.\<close>

definition text_shape_infos :: "info list \<Rightarrow> info list" where
  "text_shape_infos infos = filter (\<lambda>i. shape_text (info_shape i) \<noteq> None) infos"

text \<open>
  Line 72: \<^verbatim>\<open>sorted\<close> with the key \<^verbatim>\<open>(info['top'], info['left'])\<close>. Python compares the tuples
  lexicographically and its sort is stable; \<open>sort_key\<close> on the lexicographic order of
  pairs is the stable insertion sort.
\<close>

definition sorted_shape_infos :: "info list \<Rightarrow> info list" where
  "sorted_shape_infos infos = sort_key (\<lambda>i. (info_top i, info_left i)) infos"

text \<open>Lines 75 to 79: the text of one record on slide \<open>i\<close>.\<close>

definition is_slide_number :: "leaf \<Rightarrow> bool" where
  "is_slide_number s =
     (case shape_ph s of None \<Rightarrow> False | Some pf \<Rightarrow> ph_type pf = SLIDE_NUMBER)"

definition record_text :: "nat \<Rightarrow> leaf \<Rightarrow> pystr" where
  "record_text i s =
     (if is_slide_number s then str i
      else case shape_text s of None \<Rightarrow> [] | Some t \<Rightarrow> strip t)"

text \<open>Lines 73 to 81: the loop that extends \<^verbatim>\<open>slide_text\<close>.\<close>

fun append_texts :: "nat \<Rightarrow> info list \<Rightarrow> pystr \<Rightarrow> pystr" where
  "append_texts i [] slide_text = slide_text"
| "append_texts i (r # rest) slide_text =
     (let text = record_text i (info_shape r)
      in append_texts i rest (if text \<noteq> [] then slide_text @ text @ [10] else slide_text))"

text \<open>Lines 53 to 81: the text block of slide \<open>i\<close>.\<close>

definition slide_header :: "nat \<Rightarrow> pystr" where
  "slide_header i = py ''=== SLIDE '' @ str i @ py '' ==='' @ [10]"

definition slide_text_of :: "nat \<Rightarrow> slide \<Rightarrow> exn + pystr" where
  "slide_text_of i sl =
     (case all_shape_infos sl of
        Inl e \<Rightarrow> Inl e
      | Inr infos \<Rightarrow>
          Inr (append_texts i (sorted_shape_infos (text_shape_infos infos)) (slide_header i)))"

text \<open>Lines 52 and 82: the loop over \<^verbatim>\<open>enumerate(presentation.slides, 1)\<close>.\<close>

fun slides_loop :: "nat \<Rightarrow> slide list \<Rightarrow> pystr list \<Rightarrow> exn + pystr list" where
  "slides_loop i [] text_content = Inr text_content"
| "slides_loop i (sl # rest) text_content =
     (case slide_text_of i sl of
        Inl e \<Rightarrow> Inl e
      | Inr slide_text \<Rightarrow> slides_loop (Suc i) rest (text_content @ [slide_text]))"

text \<open>\<^verbatim>\<open>sep.join(parts)\<close>\<close>

fun join :: "pystr \<Rightarrow> pystr list \<Rightarrow> pystr" where
  "join sep [] = []"
| "join sep [x] = x"
| "join sep (x # y # ys) = x @ sep @ join sep (y # ys)"

text \<open>
  \<^verbatim>\<open>extract_text_from_pptx(file_path)\<close>, lines 30 to 85. The parser \<^verbatim>\<open>Presentation\<close> is the
  collaborator: it returns the parsed document, or fails with an exception whose
  \<^verbatim>\<open>str(e)\<close> is the \<open>Inl\<close> value. Every exception of the body is caught and re-raised with
  the prefix of line 85.
\<close>

definition error_prefix :: pystr where
  "error_prefix = py ''Error processing PowerPoint file: ''"

definition extract_text_from_pptx :: "('f \<Rightarrow> pystr + presentation) \<Rightarrow> 'f \<Rightarrow> exn + pystr" where
  "extract_text_from_pptx Presentation file_path =
     (case Presentation file_path of
        Inl cause \<Rightarrow> Inl (Exception (error_prefix @ cause))
      | Inr presentation \<Rightarrow>
          (case slides_loop 1 presentation [] of
             Inl e \<Rightarrow> Inl (Exception (error_prefix @ str_exn e))
           | Inr text_content \<Rightarrow> Inr (join [10] text_content)))"

section \<open>The upload endpoint\<close>

text \<open>
  \<^verbatim>\<open>str.lower()\<close>, written out for the letters A to Z; every other code point is left as
  it is. No code point outside A to Z has a lower-case form among the letters of
  \<^verbatim>\<open>pptx\<close> and \<^verbatim>\<open>ppt\<close>, so the membership test of \<^verbatim>\<open>allowed_file\<close> is the one of Python.
\<close>

definition lower_char :: "pychar \<Rightarrow> pychar" where
  "lower_char c = (if 65 \<le> c \<and> c \<le> 90 then c + 32 else c)"

definition lower :: "pystr \<Rightarrow> pystr" where
  "lower s = map lower_char s"

text \<open>
  \<^verbatim>\<open>s.rsplit(sep, 1)\<close> for a separator of one character: the text before the last separator
  and the text after it, or the text alone when it has no separator.
\<close>

definition rsplit1 :: "pychar \<Rightarrow> pystr \<Rightarrow> pystr list" where
  "rsplit1 sep s =
     (if sep \<in> set s
      then [rev (tl (dropWhile (\<lambda>c. c \<noteq> sep) (rev s))), rev (takeWhile (\<lambda>c. c \<noteq> sep) (rev s))]
      else [s])"

definition ALLOWED_EXTENSIONS :: "pystr set" where
  "ALLOWED_EXTENSIONS = {py ''pptx'', py ''ppt''}"

text \<open>
  \<^verbatim>\<open>allowed_file(filename)\<close>, lines 25 to 28. The index \<^verbatim>\<open>[1]\<close> is read only when the name has
  a dot, where \<^verbatim>\<open>rsplit\<close> returns two parts.
\<close>

definition allowed_file :: "pystr \<Rightarrow> bool" where
  "allowed_file filename =
     (46 \<in> set filename \<and> lower (rsplit1 46 filename ! 1) \<in> ALLOWED_EXTENSIONS)"

text \<open>
  The request as the endpoint reads it: the length of its content, and \<^verbatim>\<open>request.files\<close>,
  which maps the name of a form part to the uploaded file, of which \<^verbatim>\<open>filename\<close> is read.
\<close>

record upload =
  filename :: pystr
  stream :: "nat list"

record request =
  content_length :: nat
  files :: "pystr \<rightharpoonup> upload"

text \<open>
  The response \<^verbatim>\<open>jsonify(...), status\<close>, and what the handler did to its collaborators, in
  order: saving the upload, calling the extractor, removing the file.
\<close>

datatype json =
    ErrorJson pystr
  | SuccessJson pystr pystr

datatype effect = Save pystr | Extract pystr | Remove pystr

record outcome =
  body :: json
  status :: nat
  effects :: "effect list"

definition UPLOAD_FOLDER :: pystr where
  "UPLOAD_FOLDER = py ''uploads''"

text \<open>Line 15: 16MB.\<close>

definition MAX_CONTENT_LENGTH :: nat where
  "MAX_CONTENT_LENGTH = 16 * 1024 * 1024"

text \<open>Lines 144 to 146: the handler of status 413.\<close>

definition too_large :: outcome where
  "too_large =
     \<lparr>body = ErrorJson (py ''File too large. Maximum size is 16MB''), status = 413,
      effects = []\<rparr>"

text \<open>
  \<^verbatim>\<open>convert_pptx_to_text()\<close>, lines 93 to 110, for a request that the route of line 93
  hands to it. Reading \<^verbatim>\<open>request.files\<close> on line 95 raises \<^verbatim>\<open>RequestEntityTooLarge\<close> when
  the content is longer than \<^verbatim>\<open>MAX_CONTENT_LENGTH\<close> (lines 15 to 18), and the application
  answers with \<open>too_large\<close>. The collaborators are parameters:
  \<open>secure_filename\<close> (werkzeug), \<open>save\<close> (\<^verbatim>\<open>file.save\<close>: \<open>Some\<close> the message of the exception it
  raises), \<open>extract\<close> (the extractor on a path) and \<open>exists\<close> (\<^verbatim>\<open>os.path.exists\<close> in the
  \<^verbatim>\<open>finally\<close> block). \<^verbatim>\<open>os.path.join\<close> of the folder and a relative name puts a slash between
  them.
\<close>

definition convert_pptx_to_text ::
  "(pystr \<Rightarrow> pystr) \<Rightarrow> (upload \<Rightarrow> pystr \<Rightarrow> pystr option) \<Rightarrow> (pystr \<Rightarrow> exn + pystr) \<Rightarrow>
   (pystr \<Rightarrow> bool) \<Rightarrow> request \<Rightarrow> outcome" where
  "convert_pptx_to_text secure_filename save extract exists req =
     (if MAX_CONTENT_LENGTH < content_length req then too_large
      else case files req (py ''file'') of
        None \<Rightarrow> \<lparr>body = ErrorJson (py ''No file provided''), status = 400, effects = []\<rparr>
      | Some file \<Rightarrow>
          if filename file = [] \<or> \<not> allowed_file (filename file)
          then \<lparr>body = ErrorJson (py ''Invalid file or file type''), status = 400, effects = []\<rparr>
          else
            (let name = secure_filename (filename file);
                 filepath = UPLOAD_FOLDER @ py ''/'' @ name;
                 cleanup = (if exists filepath then [Remove filepath] else [])
             in (case save file filepath of
                   Some msg \<Rightarrow>
                     \<lparr>body = ErrorJson msg, status = 500, effects = Save filepath # cleanup\<rparr>
                 | None \<Rightarrow>
                     (case extract filepath of
                        Inl e \<Rightarrow>
                          \<lparr>body = ErrorJson (str_exn e), status = 500,
                           effects = [Save filepath, Extract filepath] @ cleanup\<rparr>
                      | Inr extracted_text \<Rightarrow>
                          \<lparr>body = SuccessJson extracted_text name, status = 200,
                           effects = [Save filepath, Extract filepath] @ cleanup\<rparr>))))"

text \<open>
  The specification's reading of an accepted name: some text, a dot, and an extension
  without a dot that is \<^verbatim>\<open>pptx\<close> or \<^verbatim>\<open>ppt\<close> up to case.
\<close>

definition spec_has_allowed_extension :: "pystr \<Rightarrow> bool" where
  "spec_has_allowed_extension name =
     (\<exists>base ext. name = base @ [46] @ ext \<and> 46 \<notin> set ext \<and>
        (lower ext = py ''pptx'' \<or> lower ext = py ''ppt''))"

section \<open>The specification's notions\<close>

text \<open>
  The definitions of this section follow the words of the specification, not the program.
  They are what the program's functions are compared with.
\<close>

text \<open>
  The placeholder indices of a sequence of shapes, in order: the \<^verbatim>\<open>placeholderIndex\<close> values
  of those that are placeholders.
\<close>

definition placeholder_idx_list :: "leaf list \<Rightarrow> int list" where
  "placeholder_idx_list ls = map idx (List.map_filter shape_ph ls)"

definition has_idx :: "int \<Rightarrow> leaf \<Rightarrow> bool" where
  "has_idx j s = (case shape_ph s of None \<Rightarrow> False | Some pf \<Rightarrow> idx pf = j)"

text \<open>How many records of a candidate set are placeholders with index \<open>j\<close>.\<close>

definition idx_count :: "int \<Rightarrow> info list \<Rightarrow> nat" where
  "idx_count j infos = length (filter (\<lambda>r. has_idx j (info_shape r)) infos)"

text \<open>
  Section 4.2, step 3: the layout's placeholders, in authored order, whose index is not
  covered yet; each one added covers its index.
\<close>

fun spec_layout_additions :: "leaf list \<Rightarrow> int set \<Rightarrow> leaf list" where
  "spec_layout_additions [] covered = []"
| "spec_layout_additions (s # rest) covered =
     (case shape_ph s of
        None \<Rightarrow> spec_layout_additions rest covered
      | Some pf \<Rightarrow>
          if idx pf \<in> covered then spec_layout_additions rest covered
          else s # spec_layout_additions rest (insert (idx pf) covered))"

text \<open>
  Section 4.2, step 4: the master's placeholders whose index is not in the covered set;
  the set is not extended.
\<close>

definition spec_master_additions :: "leaf list \<Rightarrow> int set \<Rightarrow> leaf list" where
  "spec_master_additions ms covered =
     filter (\<lambda>s. case shape_ph s of None \<Rightarrow> False | Some pf \<Rightarrow> idx pf \<notin> covered) ms"

text \<open>
  Section 4.2, step 5: \<^verbatim>\<open>allRecords = slideRecords ++ layoutAdditions ++ masterAdditions\<close>.
  The covered set that the master is checked against holds the slide's indices and the
  layout's.
\<close>

definition spec_slide_records :: "slide \<Rightarrow> info list" where
  "spec_slide_records sl = map (spec_record 0 0) (concat (map spec_leaves (shapes sl)))"

definition spec_all_records :: "slide \<Rightarrow> info list" where
  "spec_all_records sl =
     (let slide_records = spec_slide_records sl;
          covered = placeholder_idxs slide_records;
          lps = layout_placeholders (slide_layout sl);
          mps = master_placeholders (slide_master (slide_layout sl))
      in slide_records
         @ map placeholder_record (spec_layout_additions lps covered)
         @ map placeholder_record
             (spec_master_additions mps (covered \<union> set (placeholder_idx_list lps))))"

text \<open>
  Section 4.3, step 2: the order of two records, top first, left breaking ties.
\<close>

definition lex_le :: "info \<Rightarrow> info \<Rightarrow> bool" where
  "lex_le a b =
     (info_top a < info_top b \<or> (info_top a = info_top b \<and> info_left a \<le> info_left b))"

text \<open>The records of a candidate set that contribute a line on slide \<open>n\<close>, in sorted order.\<close>

definition emitting_records :: "nat \<Rightarrow> info list \<Rightarrow> info list" where
  "emitting_records n infos =
     filter (\<lambda>r. record_text n (info_shape r) \<noteq> [])
       (sorted_shape_infos (text_shape_infos infos))"



text \<open>
  Section 4.3, steps 3 to 5: the non-empty texts of a slide in sorted order, and the block
  made of the header line and of each text followed by a newline.
\<close>

definition spec_slide_texts :: "nat \<Rightarrow> info list \<Rightarrow> pystr list" where
  "spec_slide_texts n infos =
     filter (\<lambda>t. t \<noteq> [])
       (map (\<lambda>r. record_text n (info_shape r)) (sorted_shape_infos (text_shape_infos infos)))"

definition spec_block :: "nat \<Rightarrow> pystr list \<Rightarrow> pystr" where
  "spec_block n texts =
     py ''=== SLIDE '' @ str n @ py '' ==='' @ [10] @ concat (map (\<lambda>t. t @ [10]) texts)"

text \<open>One block per slide, in slide order, the slides numbered from 1.\<close>

definition spec_blocks :: "presentation \<Rightarrow> pystr list" where
  "spec_blocks p =
     map (\<lambda>(n, sl). spec_block n (spec_slide_texts n (spec_all_records sl)))
       (zip [1..<Suc (length p)] p)"

definition not_a_placeholder :: exn where
  "not_a_placeholder = ValueError (py ''shape is not a placeholder'')"

text \<open>
  The exception that ends the processing of a slide, if any: that of the first shape
  whose type cannot be read, else that of a placeholder collection holding a shape that
  is not a placeholder. The exception of a document is that of its first slide that has
  one.
\<close>

definition spec_slide_error :: "slide \<Rightarrow> exn option" where
  "spec_slide_error sl =
     (case first_unrecognized (shapes sl) of
        Some m \<Rightarrow> Some (NotImplementedError m)
      | None \<Rightarrow> if wf_slide sl then None else Some not_a_placeholder)"

fun spec_first_error :: "presentation \<Rightarrow> exn option" where
  "spec_first_error [] = None"
| "spec_first_error (sl # rest) =
     (case spec_slide_error sl of
        Some e \<Rightarrow> Some e
      | None \<Rightarrow> spec_first_error rest)"

section \<open>Example documents\<close>

text \<open>
  A slide with a title placeholder at (20,5) whose text has blanks around it, a group at
  (10,10) holding a text box at (10,0), and a picture without position or text. Its
  layout has a title placeholder (index 0, which the slide supplies) and a slide-number
  placeholder (index 12) at (20,5); the master has a slide-number placeholder with the
  same index 12 and a footer placeholder (index 11) without position.
\<close>

definition example_title :: leaf where
  "example_title = \<lparr>shape_top = Some 20, shape_left = Some 5,
     shape_ph = Some \<lparr>idx = 0, ph_type = TITLE\<rparr>, shape_text = Some (py '' b '')\<rparr>"

definition example_grouped :: leaf where
  "example_grouped = \<lparr>shape_top = Some 10, shape_left = Some 0,
     shape_ph = None, shape_text = Some (py ''c'')\<rparr>"

definition example_picture :: leaf where
  "example_picture = \<lparr>shape_top = None, shape_left = None,
     shape_ph = None, shape_text = None\<rparr>"

definition example_layout_title :: leaf where
  "example_layout_title = \<lparr>shape_top = Some 1, shape_left = Some 1,
     shape_ph = Some \<lparr>idx = 0, ph_type = TITLE\<rparr>, shape_text = Some (py ''layout title'')\<rparr>"

definition example_layout_number :: leaf where
  "example_layout_number = \<lparr>shape_top = Some 20, shape_left = Some 5,
     shape_ph = Some \<lparr>idx = 12, ph_type = SLIDE_NUMBER\<rparr>, shape_text = Some (py ''<#>'')\<rparr>"

definition example_master_number :: leaf where
  "example_master_number = \<lparr>shape_top = Some 90, shape_left = Some 90,
     shape_ph = Some \<lparr>idx = 12, ph_type = SLIDE_NUMBER\<rparr>, shape_text = Some (py ''<#>'')\<rparr>"

definition example_master_footer :: leaf where
  "example_master_footer = \<lparr>shape_top = None, shape_left = None,
     shape_ph = Some \<lparr>idx = 11, ph_type = FOOTER\<rparr>, shape_text = Some (py ''footer'')\<rparr>"

definition example_slide :: slide where
  "example_slide =
     \<lparr>shapes = [Leaf example_title,
                 Group (Some 10) (Some 10) [Leaf example_grouped],
                 Leaf example_picture],
      slide_layout =
        \<lparr>layout_placeholders = [example_layout_title, example_layout_number],
         slide_master = \<lparr>master_placeholders = [example_master_number, example_master_footer]\<rparr>\<rparr>\<rparr>"

text \<open>
  The end-to-end example of the specification: slide 1 has a body at (50,0) reading
  \<^verbatim>\<open>Welcome\<close> and a title at (0,0) reading \<^verbatim>\<open>Intro\<close>; slide 2 is empty and inherits a
  slide-number placeholder at (90,90) from its master.
\<close>

definition example_master :: master where
  "example_master = \<lparr>master_placeholders =
     [\<lparr>shape_top = Some 90, shape_left = Some 90,
       shape_ph = Some \<lparr>idx = 12, ph_type = SLIDE_NUMBER\<rparr>,
       shape_text = Some (py ''<#>'')\<rparr>]\<rparr>"

definition example_doc :: presentation where
  "example_doc =
     [\<lparr>shapes =
         [Leaf \<lparr>shape_top = Some 50, shape_left = Some 0,
                shape_ph = Some \<lparr>idx = 1, ph_type = BODY\<rparr>, shape_text = Some (py ''Welcome'')\<rparr>,
          Leaf \<lparr>shape_top = Some 0, shape_left = Some 0,
                shape_ph = Some \<lparr>idx = 0, ph_type = TITLE\<rparr>, shape_text = Some (py ''Intro'')\<rparr>],
       slide_layout = \<lparr>layout_placeholders = [], slide_master = \<lparr>master_placeholders = []\<rparr>\<rparr>\<rparr>,
      \<lparr>shapes = [],
       slide_layout = \<lparr>layout_placeholders = [], slide_master = example_master\<rparr>\<rparr>]"

text \<open>
  A document that the parser accepts and whose second slide holds, after a text box, a
  shape that python-pptx cannot classify.
\<close>

definition example_bare_doc :: presentation where
  "example_bare_doc =
     [\<lparr>shapes = [Leaf example_grouped],
       slide_layout = \<lparr>layout_placeholders = [], slide_master = \<lparr>master_placeholders = []\<rparr>\<rparr>\<rparr>,
      \<lparr>shapes = [Leaf example_grouped,
                  Unrecognized (py ''Shape instance of unrecognized shape type'')],
       slide_layout = \<lparr>layout_placeholders = [], slide_master = \<lparr>master_placeholders = []\<rparr>\<rparr>\<rparr>]"


text \<open>A parser that returns the example document, or fails, as it is told.\<close>

definition example_parser :: "bool \<Rightarrow> pystr + presentation" where
  "example_parser ok = (if ok then Inr example_doc else Inl (py ''Package not found''))"

text \<open>A request of 1000 bytes whose part \<^verbatim>\<open>file\<close> is an upload of the given name.\<close>

definition example_request :: "pystr \<Rightarrow> request" where
  "example_request name =
     \<lparr>content_length = 1000, files = [py ''file'' \<mapsto> \<lparr>filename = name, stream = []\<rparr>]\<rparr>"

lemmas example_defs = example_slide_def example_title_def example_grouped_def
  example_picture_def example_layout_title_def example_layout_number_def
  example_master_number_def example_master_footer_def example_doc_def example_master_def
  example_bare_doc_def

lemmas eval_defs = all_shape_infos_def placeholder_format_of_def placeholder_record_def
  emu_or_0_def text_shape_infos_def sorted_shape_infos_def record_text_def is_slide_number_def
  slide_header_def py_def strip_def isspace_def less_eq_prod_def slide_text_of_def
  emitting_records_def

section \<open>Flattening: one record per non-group shape, at its absolute position\<close>

lemma spec_record_under_group:
  "map (spec_record pt pl) (map (\<lambda>(path, s). ((t, l) # path, s)) xs) =
   map (spec_record (pt + emu_or_0 t) (pl + emu_or_0 l)) xs"
  by (induction xs) (auto simp: spec_record_def)

lemma flatten_closed:
  "get_shapes_with_abs_position shs pt pl =
     (case first_unrecognized shs of
        None \<Rightarrow> Inr (map (spec_record pt pl) (concat (map spec_leaves shs)))
      | Some m \<Rightarrow> Inl (NotImplementedError m))"
proof (induction shs pt pl rule: get_shapes_with_abs_position.induct)
  case (1 pt pl)
  show ?case by simp
next
  case (2 t l children rest pt pl)
  show ?case
  proof (cases "first_unrecognized children")
    case None
    with "2.IH"(1) have c: "get_shapes_with_abs_position children
        (pt + emu_or_0 t) (pl + emu_or_0 l) =
        Inr (map (spec_record (pt + emu_or_0 t) (pl + emu_or_0 l))
               (concat (map spec_leaves children)))"
      by simp
    from "2.IH"(2) [OF c] have r: "get_shapes_with_abs_position rest pt pl =
        (case first_unrecognized rest of
           None \<Rightarrow> Inr (map (spec_record pt pl) (concat (map spec_leaves rest)))
         | Some m \<Rightarrow> Inl (NotImplementedError m))" .
    show ?thesis
      by (auto simp: None c r spec_record_def split: option.splits)
  next
    case (Some m)
    with "2.IH"(1) show ?thesis by simp
  qed
next
  case (3 s rest pt pl)
  then show ?case by (simp add: spec_record_def split: option.splits)
next
  case (4 msg rest pt pl)
  show ?case by simp
qed

lemma flatten_returns:
  "first_unrecognized shs = None \<Longrightarrow>
   get_shapes_with_abs_position shs pt pl =
     Inr (map (spec_record pt pl) (concat (map spec_leaves shs)))"
  by (simp add: flatten_closed)

lemma flatten_raises:
  "first_unrecognized shs = Some m \<Longrightarrow>
   get_shapes_with_abs_position shs pt pl = Inl (NotImplementedError m)"
  by (simp add: flatten_closed)

lemma flatten_returned:
  "get_shapes_with_abs_position shs pt pl = Inr infos \<Longrightarrow>
   first_unrecognized shs = None \<and>
   infos = map (spec_record pt pl) (concat (map spec_leaves shs))"
  by (simp add: flatten_closed split: option.splits)

lemma length_spec_leaves: "length (spec_leaves sh) = count_leaves sh"
  by (induction sh rule: spec_leaves.induct) (simp_all add: length_concat o_def cong: map_cong)

lemma length_spec_records:
  "length (map (spec_record pt pl) (concat (map spec_leaves shs))) =
   sum_list (map count_leaves shs)"
  by (simp add: length_concat o_def length_spec_leaves)

section \<open>The backfill loops in closed form\<close>

lemma pil_Nil [simp]: "placeholder_idx_list [] = []"
  by (simp add: placeholder_idx_list_def map_filter_simps)

lemma pil_Cons:
  "placeholder_idx_list (s # ls) =
     (case shape_ph s of None \<Rightarrow> placeholder_idx_list ls | Some pf \<Rightarrow> idx pf # placeholder_idx_list ls)"
  by (simp add: placeholder_idx_list_def map_filter_simps split: option.splits)

lemma pil_append [simp]:
  "placeholder_idx_list (xs @ ys) = placeholder_idx_list xs @ placeholder_idx_list ys"
  by (simp add: placeholder_idx_list_def map_filter_def)

lemma placeholder_idxs_eq: "placeholder_idxs infos = set (placeholder_idx_list (map info_shape infos))"
  by (induction infos) (auto simp: pil_Cons split: option.splits)

lemma info_shape_placeholder_record [simp]: "info_shape (placeholder_record s) = s"
  by (simp add: placeholder_record_def)

lemma map_info_shape_placeholder_record [simp]:
  "map info_shape (map placeholder_record ls) = ls"
  by (induction ls) simp_all

lemma backfill_layout_closed:
  "list_all is_placeholder lps \<Longrightarrow>
   backfill_layout lps infos covered =
     Inr (infos @ map placeholder_record (spec_layout_additions lps covered),
          covered \<union> set (placeholder_idx_list lps))"
proof (induction lps arbitrary: infos covered)
  case Nil
  show ?case by simp
next
  case (Cons s rest)
  from Cons.prems obtain pf where pf: "shape_ph s = Some pf"
    by (auto simp: is_placeholder_def)
  from Cons.prems have rest: "list_all is_placeholder rest" by simp
  show ?case
    using Cons.IH [OF rest] pf
    by (auto simp: placeholder_format_of_def pil_Cons)
qed

lemma backfill_master_closed:
  "list_all is_placeholder mps \<Longrightarrow>
   backfill_master mps infos covered =
     Inr (infos @ map placeholder_record (spec_master_additions mps covered))"
proof (induction mps arbitrary: infos)
  case Nil
  show ?case by (simp add: spec_master_additions_def)
next
  case (Cons s rest)
  from Cons.prems obtain pf where pf: "shape_ph s = Some pf"
    by (auto simp: is_placeholder_def)
  from Cons.prems have rest: "list_all is_placeholder rest" by simp
  show ?case
    using Cons.IH [OF rest] pf
    by (auto simp: placeholder_format_of_def spec_master_additions_def)
qed

lemma all_shape_infos_closed:
  assumes "wf_slide sl" and "first_unrecognized (shapes sl) = None"
  shows "all_shape_infos sl =
     Inr (spec_slide_records sl
          @ map placeholder_record
              (spec_layout_additions (layout_placeholders (slide_layout sl))
                 (placeholder_idxs (spec_slide_records sl)))
          @ map placeholder_record
              (spec_master_additions (master_placeholders (slide_master (slide_layout sl)))
                 (placeholder_idxs (spec_slide_records sl)
                  \<union> set (placeholder_idx_list (layout_placeholders (slide_layout sl))))))"
  using assms
  by (simp add: all_shape_infos_def wf_slide_def flatten_returns spec_slide_records_def
      backfill_layout_closed backfill_master_closed)

lemma slide_records_returned:
  "get_shapes_with_abs_position (shapes sl) 0 0 = Inr recs \<Longrightarrow>
   first_unrecognized (shapes sl) = None \<and> recs = spec_slide_records sl"
  by (simp add: spec_slide_records_def flatten_returned)

lemma idx_count_append [simp]: "idx_count j (xs @ ys) = idx_count j xs + idx_count j ys"
  by (simp add: idx_count_def)

lemma idx_count_eq_count_list:
  "idx_count j infos = count_list (placeholder_idx_list (map info_shape infos)) j"
  by (induction infos) (auto simp: idx_count_def pil_Cons has_idx_def split: option.splits)

lemma count_list_distinct_le: "distinct xs \<Longrightarrow> count_list xs j \<le> 1"
  by (induction xs) (auto simp: count_list_0_iff)

lemma count_list_distinct_mem: "distinct xs \<Longrightarrow> j \<in> set xs \<Longrightarrow> count_list xs j = 1"
  by (induction xs) (auto simp: count_list_0_iff)

lemma idx_count_Nil [simp]: "idx_count j [] = 0"
  by (simp add: idx_count_def)

lemma idx_count_Cons [simp]:
  "idx_count j (r # rs) = (if has_idx j (info_shape r) then 1 else 0) + idx_count j rs"
  by (simp add: idx_count_def)

lemma idx_count_layout_additions:
  "list_all is_placeholder lps \<Longrightarrow>
   idx_count j (map placeholder_record (spec_layout_additions lps covered)) =
     (if j \<notin> covered \<and> j \<in> set (placeholder_idx_list lps) then 1 else 0)"
proof (induction lps arbitrary: covered)
  case Nil
  show ?case by simp
next
  case (Cons s rest)
  from Cons.prems obtain pf where pf: "shape_ph s = Some pf"
    by (auto simp: is_placeholder_def)
  from Cons.prems have rest: "list_all is_placeholder rest" by simp
  show ?case
  proof (cases "idx pf \<in> covered")
    case True
    then show ?thesis
      using Cons.IH [OF rest, of covered] pf by (auto simp: pil_Cons)
  next
    case False
    then show ?thesis
      using Cons.IH [OF rest, of "insert (idx pf) covered"] pf
      by (auto simp: pil_Cons has_idx_def)
  qed
qed

lemma idx_count_master_additions:
  "idx_count j (map placeholder_record (spec_master_additions mps covered)) =
     (if j \<in> covered then 0 else count_list (placeholder_idx_list mps) j)"
  by (induction mps)
     (auto simp: spec_master_additions_def has_idx_def pil_Cons split: option.splits)

lemma idx_count_mset: "mset xs = mset ys \<Longrightarrow> idx_count j xs = idx_count j ys"
proof -
  assume "mset xs = mset ys"
  then have "size (filter_mset (\<lambda>r. has_idx j (info_shape r)) (mset xs)) =
             size (filter_mset (\<lambda>r. has_idx j (info_shape r)) (mset ys))"
    by simp
  then show ?thesis
    unfolding idx_count_def by (simp only: mset_filter [symmetric] size_mset)
qed

lemma idx_count_filter_le: "idx_count j (filter P xs) \<le> idx_count j xs"
  by (induction xs) simp_all

lemma filter_idx_layout_additions:
  "list_all is_placeholder lps \<Longrightarrow> j \<notin> covered \<Longrightarrow> j \<in> set (placeholder_idx_list lps) \<Longrightarrow>
   \<exists>s. find (has_idx j) lps = Some s \<and>
       filter (\<lambda>r. has_idx j (info_shape r))
         (map placeholder_record (spec_layout_additions lps covered)) = [placeholder_record s]"
proof (induction lps arbitrary: covered)
  case Nil
  then show ?case by simp
next
  case (Cons s rest)
  from Cons.prems obtain pf where pf: "shape_ph s = Some pf"
    by (auto simp: is_placeholder_def)
  from Cons.prems have rest: "list_all is_placeholder rest" by simp
  show ?case
  proof (cases "idx pf = j")
    case True
    with pf have h: "has_idx j s" by (simp add: has_idx_def)
    from True Cons.prems have nc: "idx pf \<notin> covered" by simp
    have "idx_count j (map placeholder_record (spec_layout_additions rest (insert (idx pf) covered))) = 0"
      using idx_count_layout_additions [OF rest, of j "insert (idx pf) covered"] True by simp
    then have "filter (\<lambda>r. has_idx j (info_shape r))
        (map placeholder_record (spec_layout_additions rest (insert (idx pf) covered))) = []"
      by (simp only: idx_count_def length_0_conv)
    with h pf nc show ?thesis by simp
  next
    case False
    with pf have h: "\<not> has_idx j s" by (simp add: has_idx_def)
    from False pf Cons.prems have jr: "j \<in> set (placeholder_idx_list rest)"
      by (simp add: pil_Cons)
    show ?thesis
    proof (cases "idx pf \<in> covered")
      case True
      with Cons.IH [OF rest Cons.prems(2) jr] h pf show ?thesis by simp
    next
      case nc: False
      from False Cons.prems have "j \<notin> insert (idx pf) covered" by simp
      from Cons.IH [OF rest this jr] h pf nc show ?thesis by simp
    qed
  qed
qed

section \<open>Sorting and the text loop in closed form\<close>

lemma append_texts_closed:
  "append_texts n rs acc =
     acc @ concat (map (\<lambda>r. record_text n (info_shape r) @ [10])
                     (filter (\<lambda>r. record_text n (info_shape r) \<noteq> []) rs))"
  by (induction rs arbitrary: acc) (simp_all add: Let_def)

lemma sorted_shape_infos_lex: "sorted_wrt lex_le (sorted_shape_infos infos)"
proof -
  have "sorted (map (\<lambda>i. (info_top i, info_left i)) (sorted_shape_infos infos))"
    by (simp add: sorted_shape_infos_def)
  then have "sorted_wrt (\<lambda>a b. (info_top a, info_left a) \<le> (info_top b, info_left b))
               (sorted_shape_infos infos)"
    by (simp add: sorted_map)
  then show ?thesis
    by (rule sorted_wrt_mono_rel [rotated]) (auto simp: lex_le_def less_eq_prod_def)
qed

lemma sorted_shape_infos_stable:
  "filter (\<lambda>r. info_top r = t \<and> info_left r = l) (sorted_shape_infos infos) =
   filter (\<lambda>r. info_top r = t \<and> info_left r = l) infos"
  using sort_key_stable [of "\<lambda>i. (info_top i, info_left i)" "(t, l)" infos]
  by (simp add: sorted_shape_infos_def)

lemma mset_sorted_shape_infos: "mset (sorted_shape_infos infos) = mset infos"
  by (simp add: sorted_shape_infos_def)

lemma emitting_records_lex: "sorted_wrt lex_le (emitting_records n infos)"
  unfolding emitting_records_def by (rule sorted_wrt_filter) (rule sorted_shape_infos_lex)

lemma all_shape_infos_spec:
  "wf_slide sl \<Longrightarrow> first_unrecognized (shapes sl) = None \<Longrightarrow>
   all_shape_infos sl = Inr (spec_all_records sl)"
  by (simp add: all_shape_infos_closed spec_all_records_def Let_def)

lemma slide_text_of_closed:
  "wf_slide sl \<Longrightarrow> first_unrecognized (shapes sl) = None \<Longrightarrow>
   slide_text_of n sl =
     Inr (slide_header n @
          concat (map (\<lambda>r. record_text n (info_shape r) @ [10])
                    (emitting_records n (spec_all_records sl))))"
  by (simp add: slide_text_of_def all_shape_infos_spec append_texts_closed emitting_records_def)

lemma idx_count_emitting_le: "idx_count j (emitting_records n infos) \<le> idx_count j infos"
proof -
  have "idx_count j (emitting_records n infos) \<le>
        idx_count j (sorted_shape_infos (text_shape_infos infos))"
    unfolding emitting_records_def by (rule idx_count_filter_le)
  also have "\<dots> = idx_count j (text_shape_infos infos)"
    by (rule idx_count_mset) (rule mset_sorted_shape_infos)
  also have "\<dots> \<le> idx_count j infos"
    unfolding text_shape_infos_def by (rule idx_count_filter_le)
  finally show ?thesis .
qed

lemma idx_count_spec_all_records:
  assumes "wf_slide sl"
  shows "idx_count j (spec_all_records sl) =
     count_list (placeholder_idx_list (map info_shape (spec_slide_records sl))) j
     + (if j \<notin> placeholder_idxs (spec_slide_records sl)
           \<and> j \<in> set (placeholder_idx_list (layout_placeholders (slide_layout sl)))
        then 1 else 0)
     + (if j \<in> placeholder_idxs (spec_slide_records sl)
           \<or> j \<in> set (placeholder_idx_list (layout_placeholders (slide_layout sl)))
        then 0
        else count_list (placeholder_idx_list
               (master_placeholders (slide_master (slide_layout sl)))) j)"
proof -
  from assms have wl: "list_all is_placeholder (layout_placeholders (slide_layout sl))"
    by (simp add: wf_slide_def)
  show ?thesis
    unfolding spec_all_records_def Let_def idx_count_append
      idx_count_layout_additions [OF wl] idx_count_master_additions
    by (simp add: idx_count_eq_count_list)
qed


section \<open>Decimal rendering and stripping\<close>





lemma rev_dropWhile_takeWhile:
  "xs = rev (dropWhile P (rev xs)) @ rev (takeWhile P (rev xs))"
proof -
  have "rev (takeWhile P (rev xs) @ dropWhile P (rev xs)) = rev (rev xs)"
    by (simp only: takeWhile_dropWhile_id)
  then show ?thesis
    by (simp only: rev_append rev_rev_ident)
qed



section \<open>The document loop and its failures\<close>

lemma emitted_lines_eq:
  "concat (map (\<lambda>r. record_text n (info_shape r) @ [10]) (emitting_records n infos)) =
   concat (map (\<lambda>t. t @ [10]) (spec_slide_texts n infos))"
  by (simp add: emitting_records_def spec_slide_texts_def filter_map o_def)

lemma backfill_layout_raises:
  "\<not> list_all is_placeholder lps \<Longrightarrow> backfill_layout lps infos covered = Inl not_a_placeholder"
proof (induction lps arbitrary: infos covered)
  case Nil
  then show ?case by simp
next
  case (Cons s rest)
  show ?case
  proof (cases "shape_ph s")
    case None
    then show ?thesis by (simp add: placeholder_format_of_def not_a_placeholder_def)
  next
    case (Some pf)
    then have "is_placeholder s" by (simp add: is_placeholder_def)
    with Cons.prems have "\<not> list_all is_placeholder rest" by simp
    with Cons.IH Some show ?thesis by (simp add: placeholder_format_of_def)
  qed
qed

lemma backfill_master_raises:
  "\<not> list_all is_placeholder mps \<Longrightarrow> backfill_master mps infos covered = Inl not_a_placeholder"
proof (induction mps arbitrary: infos)
  case Nil
  then show ?case by simp
next
  case (Cons s rest)
  show ?case
  proof (cases "shape_ph s")
    case None
    then show ?thesis by (simp add: placeholder_format_of_def not_a_placeholder_def)
  next
    case (Some pf)
    then have "is_placeholder s" by (simp add: is_placeholder_def)
    with Cons.prems have "\<not> list_all is_placeholder rest" by simp
    with Cons.IH Some show ?thesis by (simp add: placeholder_format_of_def)
  qed
qed

lemma all_shape_infos_outcome:
  "all_shape_infos sl =
     (case spec_slide_error sl of
        None \<Rightarrow> Inr (spec_all_records sl)
      | Some e \<Rightarrow> Inl e)"
proof (cases "first_unrecognized (shapes sl)")
  case (Some m)
  then show ?thesis
    by (simp add: spec_slide_error_def all_shape_infos_def flatten_raises)
next
  case None
  show ?thesis
  proof (cases "wf_slide sl")
    case True
    with None show ?thesis
      by (simp add: spec_slide_error_def all_shape_infos_spec)
  next
    case False
    have "all_shape_infos sl = Inl not_a_placeholder"
    proof (cases "list_all is_placeholder (layout_placeholders (slide_layout sl))")
      case True
      with False
      have "\<not> list_all is_placeholder (master_placeholders (slide_master (slide_layout sl)))"
        by (simp add: wf_slide_def)
      with True None show ?thesis
        by (simp add: all_shape_infos_def flatten_returns backfill_layout_closed
            backfill_master_raises)
    next
      case False
      with None show ?thesis
        by (simp add: all_shape_infos_def flatten_returns backfill_layout_raises)
    qed
    with None False show ?thesis
      by (simp add: spec_slide_error_def)
  qed
qed

lemma slide_text_of_outcome:
  "slide_text_of n sl =
     (case spec_slide_error sl of
        None \<Rightarrow> Inr (spec_block n (spec_slide_texts n (spec_all_records sl)))
      | Some e \<Rightarrow> Inl e)"
  by (simp add: slide_text_of_def all_shape_infos_outcome append_texts_closed
      emitted_lines_eq [unfolded emitting_records_def] spec_block_def slide_header_def
      split: option.splits)

lemma slides_loop_outcome:
  "slides_loop i p acc =
     (case spec_first_error p of
        None \<Rightarrow>
          Inr (acc @ map (\<lambda>(n, sl). spec_block n (spec_slide_texts n (spec_all_records sl)))
                       (zip [i..<i + length p] p))
      | Some e \<Rightarrow> Inl e)"
proof (induction p arbitrary: i acc)
  case Nil
  show ?case by simp
next
  case (Cons sl rest)
  have upt: "[i..<Suc (i + length rest)] = i # [Suc i..<Suc (i + length rest)]"
    by (rule upt_conv_Cons) simp
  show ?case
  proof (cases "spec_slide_error sl")
    case (Some e)
    then show ?thesis by (simp add: slide_text_of_outcome)
  next
    case None
    then show ?thesis
      using Cons.IH [of "Suc i"]
      by (simp add: slide_text_of_outcome upt split: option.splits del: upt_Suc)
  qed
qed


lemma extract_outcome:
  "Presentation f = Inr p \<Longrightarrow>
   extract_text_from_pptx Presentation f =
     (case spec_first_error p of
        None \<Rightarrow> Inr (join [10] (spec_blocks p))
      | Some e \<Rightarrow> Inl (Exception (error_prefix @ str_exn e)))"
  using slides_loop_outcome [of 1 p "[]"]
  by (simp add: extract_text_from_pptx_def spec_blocks_def split: option.splits del: upt_Suc)




section \<open>Accepted file names\<close>

lemma rsplit1_second:
  "46 \<in> set name \<Longrightarrow> rsplit1 46 name ! Suc 0 = rev (takeWhile (\<lambda>c. c \<noteq> 46) (rev name))"
  by (simp add: rsplit1_def)

lemma last_dot_split:
  assumes "(46::nat) \<in> set name"
  shows "name = rev (tl (dropWhile (\<lambda>c. c \<noteq> 46) (rev name))) @ [46]
                @ rev (takeWhile (\<lambda>c. c \<noteq> 46) (rev name))"
proof -
  let ?P = "\<lambda>c::nat. c \<noteq> 46"
  let ?d = "dropWhile ?P (rev name)"
  from assms have "\<not> (\<forall>c\<in>set (rev name). ?P c)" by auto
  then have d: "?d \<noteq> []" by (simp del: set_rev)
  then have "\<not> ?P (hd ?d)" by (rule hd_dropWhile)
  then have "hd ?d = 46" by simp
  with d have dd: "?d = 46 # tl ?d" by (cases ?d) simp_all
  have "name = rev ?d @ rev (takeWhile ?P (rev name))"
    by (rule rev_dropWhile_takeWhile)
  also have "rev ?d = rev (tl ?d) @ [46]"
    by (subst dd) simp
  finally show ?thesis by simp
qed

lemma takeWhile_rev_ext:
  assumes "(46::nat) \<notin> set ext"
  shows "rev (takeWhile (\<lambda>c. c \<noteq> 46) (rev (base @ [46] @ ext))) = ext"
proof -
  have "takeWhile (\<lambda>c. c \<noteq> 46) (rev ext @ 46 # rev base) = rev ext"
    using assms by (subst takeWhile_append2) auto
  then show ?thesis by simp
qed

lemma allowed_file_iff_spec: "allowed_file name = spec_has_allowed_extension name"
proof
  assume a: "allowed_file name"
  then have dot: "46 \<in> set name" by (simp add: allowed_file_def)
  let ?ext = "rev (takeWhile (\<lambda>c. c \<noteq> 46) (rev name))"
  let ?base = "rev (tl (dropWhile (\<lambda>c. c \<noteq> 46) (rev name)))"
  from a dot have low: "lower ?ext = py ''pptx'' \<or> lower ?ext = py ''ppt''"
    by (simp add: allowed_file_def rsplit1_second ALLOWED_EXTENSIONS_def)
  have nodot: "46 \<notin> set ?ext"
    by (auto dest: set_takeWhileD)
  have "name = ?base @ [46] @ ?ext" using dot by (rule last_dot_split)
  with nodot low show "spec_has_allowed_extension name"
    unfolding spec_has_allowed_extension_def by blast
next
  assume "spec_has_allowed_extension name"
  then obtain base ext where n: "name = base @ [46] @ ext" and nodot: "46 \<notin> set ext"
    and low: "lower ext = py ''pptx'' \<or> lower ext = py ''ppt''"
    unfolding spec_has_allowed_extension_def by blast
  from n have dot: "46 \<in> set name" by simp
  have "rsplit1 46 name ! Suc 0 = ext"
    using takeWhile_rev_ext [OF nodot, of base] dot n by (simp add: rsplit1_second)
  with dot low show "allowed_file name"
    by (simp add: allowed_file_def ALLOWED_EXTENSIONS_def)
qed

lemma last_concat_lines:
  "texts \<noteq> [] \<Longrightarrow> last (concat (map (\<lambda>t. t @ [10::nat]) texts)) = 10"
  by (induction texts rule: rev_induct) simp_all

section \<open>The claims\<close>

text \<open>
  Claim C1. Whenever flattening a shape tree at an accumulated offset returns, it returns,
  in authored order, exactly the records of the non-group shapes reachable through groups:
  the record of such a shape carries the shape and, as absolute top (left), the root
  offset plus the tops (lefts) of all enclosing groups plus the shape's own top (left),
  a missing top or left counting as 0. The number of records is the number of non-group
  shapes, so a group contributes no record of its own (an empty group contributes
  nothing). Flattening returns on every tree in which the type of every shape can be
  read, and raises the exception of the first other shape otherwise. A shape at (5,5)
  inside a group at (10,10) inside a group at (100,100) gets absolute top 115 and
  absolute left 115.
\<close>

theorem flatten_one_record_per_leaf_at_absolute_position:
  assumes "get_shapes_with_abs_position shs root_top root_left = Inr infos"
  shows "infos = map (spec_record root_top root_left) (concat (map spec_leaves shs))
   \<and> length infos = sum_list (map count_leaves shs)
   \<and> first_unrecognized shs = None
   \<and> (\<forall>other pt pl. first_unrecognized other = None \<longrightarrow>
         get_shapes_with_abs_position other pt pl =
           Inr (map (spec_record pt pl) (concat (map spec_leaves other))))
   \<and> (\<forall>other pt pl m. first_unrecognized other = Some m \<longrightarrow>
         get_shapes_with_abs_position other pt pl = Inl (NotImplementedError m))
   \<and> get_shapes_with_abs_position [Group t l []] root_top root_left = Inr []
   \<and> get_shapes_with_abs_position
         [Leaf (s\<lparr>shape_top := None, shape_left := None\<rparr>)] root_top root_left =
       Inr [\<lparr>info_shape = s\<lparr>shape_top := None, shape_left := None\<rparr>,
             info_top = root_top, info_left = root_left\<rparr>]
   \<and> get_shapes_with_abs_position
         [Group (Some 100) (Some 100)
            [Group (Some 10) (Some 10)
               [Leaf (s\<lparr>shape_top := Some 5, shape_left := Some 5\<rparr>)]]] 0 0 =
       Inr [\<lparr>info_shape = s\<lparr>shape_top := Some 5, shape_left := Some 5\<rparr>,
             info_top = 115, info_left = 115\<rparr>]"
proof -
  from assms have a: "infos = map (spec_record root_top root_left) (concat (map spec_leaves shs))"
    and u: "first_unrecognized shs = None"
    by (simp_all add: flatten_returned)
  from a have b: "length infos = sum_list (map count_leaves shs)"
    by (simp only: length_spec_records)
  have r: "\<forall>other pt pl. first_unrecognized other = None \<longrightarrow>
         get_shapes_with_abs_position other pt pl =
           Inr (map (spec_record pt pl) (concat (map spec_leaves other)))"
    by (simp add: flatten_returns)
  have f: "\<forall>other pt pl m. first_unrecognized other = Some m \<longrightarrow>
         get_shapes_with_abs_position other pt pl = Inl (NotImplementedError m)"
    by (simp add: flatten_raises)
  have c: "get_shapes_with_abs_position [Group t l []] root_top root_left = Inr []"
    by simp
  have d: "get_shapes_with_abs_position
         [Leaf (s\<lparr>shape_top := None, shape_left := None\<rparr>)] root_top root_left =
       Inr [\<lparr>info_shape = s\<lparr>shape_top := None, shape_left := None\<rparr>,
             info_top = root_top, info_left = root_left\<rparr>]"
    by (simp add: emu_or_0_def)
  have e: "get_shapes_with_abs_position
         [Group (Some 100) (Some 100)
            [Group (Some 10) (Some 10)
               [Leaf (s\<lparr>shape_top := Some 5, shape_left := Some 5\<rparr>)]]] 0 0 =
       Inr [\<lparr>info_shape = s\<lparr>shape_top := Some 5, shape_left := Some 5\<rparr>,
             info_top = 115, info_left = 115\<rparr>]"
    by (simp add: emu_or_0_def)
  from a b u r f c d e show ?thesis by blast
qed

theorem flatten_example:
  "get_shapes_with_abs_position (shapes example_slide) 0 0 =
     Inr [\<lparr>info_shape = example_title, info_top = 20, info_left = 5\<rparr>,
          \<lparr>info_shape = example_grouped, info_top = 20, info_left = 10\<rparr>,
          \<lparr>info_shape = example_picture, info_top = 0, info_left = 0\<rparr>]
   \<and> [\<lparr>info_shape = example_title, info_top = 20, info_left = 5\<rparr>,
       \<lparr>info_shape = example_grouped, info_top = 20, info_left = 10\<rparr>,
       \<lparr>info_shape = example_picture, info_top = 0, info_left = 0\<rparr>] =
      map (spec_record 0 0) (concat (map spec_leaves (shapes example_slide)))
   \<and> sum_list (map count_leaves (shapes example_slide)) = 3
   \<and> get_shapes_with_abs_position
        [Leaf example_grouped, Unrecognized (py ''Shape instance of unrecognized shape type'')]
        0 0 =
       Inl (NotImplementedError (py ''Shape instance of unrecognized shape type''))"
proof -
  have h: "get_shapes_with_abs_position (shapes example_slide) 0 0 =
     Inr [\<lparr>info_shape = example_title, info_top = 20, info_left = 5\<rparr>,
          \<lparr>info_shape = example_grouped, info_top = 20, info_left = 10\<rparr>,
          \<lparr>info_shape = example_picture, info_top = 0, info_left = 0\<rparr>]"
    by (simp add: example_defs emu_or_0_def)
  have u: "first_unrecognized
        [Leaf example_grouped, Unrecognized (py ''Shape instance of unrecognized shape type'')] =
       Some (py ''Shape instance of unrecognized shape type'')"
    by simp
  have n: "sum_list (map count_leaves (shapes example_slide)) = 3"
    by (simp add: example_defs)
  from flatten_one_record_per_leaf_at_absolute_position [OF h] h u n
  show ?thesis by simp
qed

text \<open>
  Claim C2. On every slide whose flattening returns and whose layout and master
  placeholder collections hold placeholders, the candidate records are the concatenation
  of the slide's records, the layout's additions and the master's additions; the text-bearing ones among them are
  sorted into a permutation that is ascending by absolute top, then absolute left, and
  that keeps the records of any one position (top, left) in the order they have in the
  concatenation. The slide's text is the header followed by the lines of the records that
  contribute one, in that sorted order, so the source records of any two emitted lines are
  in ascending order too.
\<close>

theorem text_records_sorted_by_top_then_left_stably:
  assumes "wf_slide sl" and "get_shapes_with_abs_position (shapes sl) 0 0 = Inr recs"
  shows "\<exists>infos. all_shape_infos sl = Inr infos
     \<and> infos = spec_all_records sl
     \<and> take (length recs) infos = recs
     \<and> mset (sorted_shape_infos (text_shape_infos infos)) = mset (text_shape_infos infos)
     \<and> sorted_wrt lex_le (sorted_shape_infos (text_shape_infos infos))
     \<and> (\<forall>t l. filter (\<lambda>r. info_top r = t \<and> info_left r = l)
                 (sorted_shape_infos (text_shape_infos infos)) =
               filter (\<lambda>r. info_top r = t \<and> info_left r = l) (text_shape_infos infos))
     \<and> slide_text_of n sl =
         Inr (slide_header n @
              concat (map (\<lambda>r. record_text n (info_shape r) @ [10]) (emitting_records n infos)))
     \<and> sorted_wrt lex_le (emitting_records n infos)"
proof -
  have u: "first_unrecognized (shapes sl) = None"
    and r: "recs = spec_slide_records sl"
    using slide_records_returned [OF assms(2)] by simp_all
  have t: "take (length recs) (spec_all_records sl) = recs"
    by (simp add: r spec_all_records_def Let_def)
  from assms(1) u t show ?thesis
    by (simp add: all_shape_infos_spec mset_sorted_shape_infos sorted_shape_infos_lex
        sorted_shape_infos_stable slide_text_of_closed emitting_records_lex)
qed

theorem text_records_sorted_example:
  "wf_slide example_slide
   \<and> (\<exists>infos. all_shape_infos example_slide = Inr infos
        \<and> sorted_wrt lex_le (sorted_shape_infos (text_shape_infos infos))
        \<and> filter (\<lambda>r. info_top r = 20 \<and> info_left r = 5)
             (sorted_shape_infos (text_shape_infos infos)) =
           [\<lparr>info_shape = example_title, info_top = 20, info_left = 5\<rparr>,
            \<lparr>info_shape = example_layout_number, info_top = 20, info_left = 5\<rparr>]
        \<and> sorted_wrt lex_le (emitting_records 4 infos))
   \<and> slide_text_of 4 example_slide =
       Inr (py ''=== SLIDE 4 ===\<newline>footer\<newline>b\<newline>4\<newline>c\<newline>'')"
proof -
  have h: "wf_slide example_slide"
    by (simp add: wf_slide_def example_defs is_placeholder_def)
  have fl: "get_shapes_with_abs_position (shapes example_slide) 0 0 =
     Inr [\<lparr>info_shape = example_title, info_top = 20, info_left = 5\<rparr>,
          \<lparr>info_shape = example_grouped, info_top = 20, info_left = 10\<rparr>,
          \<lparr>info_shape = example_picture, info_top = 0, info_left = 0\<rparr>]"
    by (simp add: example_defs emu_or_0_def)
  from text_records_sorted_by_top_then_left_stably [OF h fl, of 4] obtain infos
    where a: "all_shape_infos example_slide = Inr infos"
      and b: "sorted_wrt lex_le (sorted_shape_infos (text_shape_infos infos))"
      and c: "\<forall>t l. filter (\<lambda>r. info_top r = t \<and> info_left r = l)
                 (sorted_shape_infos (text_shape_infos infos)) =
               filter (\<lambda>r. info_top r = t \<and> info_left r = l) (text_shape_infos infos)"
      and d: "sorted_wrt lex_le (emitting_records 4 infos)"
    by blast
  have e: "infos =
      [\<lparr>info_shape = example_title, info_top = 20, info_left = 5\<rparr>,
       \<lparr>info_shape = example_grouped, info_top = 20, info_left = 10\<rparr>,
       \<lparr>info_shape = example_picture, info_top = 0, info_left = 0\<rparr>,
       \<lparr>info_shape = example_layout_number, info_top = 20, info_left = 5\<rparr>,
       \<lparr>info_shape = example_master_footer, info_top = 0, info_left = 0\<rparr>]"
    using a by (simp add: example_defs eval_defs str.simps)
  have "filter (\<lambda>r. info_top r = 20 \<and> info_left r = 5) (text_shape_infos infos) =
           [\<lparr>info_shape = example_title, info_top = 20, info_left = 5\<rparr>,
            \<lparr>info_shape = example_layout_number, info_top = 20, info_left = 5\<rparr>]"
    unfolding e by (simp add: text_shape_infos_def example_defs)
  with c have f: "filter (\<lambda>r. info_top r = 20 \<and> info_left r = 5)
             (sorted_shape_infos (text_shape_infos infos)) =
           [\<lparr>info_shape = example_title, info_top = 20, info_left = 5\<rparr>,
            \<lparr>info_shape = example_layout_number, info_top = 20, info_left = 5\<rparr>]"
    by simp
  have g: "slide_text_of 4 example_slide =
       Inr (py ''=== SLIDE 4 ===\<newline>footer\<newline>b\<newline>4\<newline>c\<newline>'')"
    by (simp add: example_defs eval_defs str.simps)
  from h a b f d g show ?thesis by blast
qed

text \<open>
  Claim C3. On a slide whose flattening returns and whose own flattened placeholders, whose layout's placeholders and
  whose master's placeholders each have pairwise different indices, every index that the
  layout or the master defines and the slide does not supply belongs to exactly one
  candidate record, no index belongs to more than one candidate record, and no index
  belongs to more than one record among those that contribute a text line.
\<close>

theorem backfill_represents_each_inherited_placeholder_once:
  assumes wf: "wf_slide sl"
    and fl: "get_shapes_with_abs_position (shapes sl) 0 0 = Inr recs"
    and ds: "distinct (placeholder_idx_list (map info_shape recs))"
    and dl: "distinct (placeholder_idx_list (layout_placeholders (slide_layout sl)))"
    and dm: "distinct (placeholder_idx_list
               (master_placeholders (slide_master (slide_layout sl))))"
  shows "\<exists>infos. all_shape_infos sl = Inr infos
     \<and> (\<forall>j. (j \<in> set (placeholder_idx_list (layout_placeholders (slide_layout sl)))
            \<or> j \<in> set (placeholder_idx_list
                         (master_placeholders (slide_master (slide_layout sl)))))
           \<and> j \<notin> set (placeholder_idx_list (map info_shape recs))
           \<longrightarrow> idx_count j infos = 1)
     \<and> (\<forall>j. idx_count j infos \<le> 1)
     \<and> (\<forall>j. idx_count j (emitting_records n infos) \<le> 1)
     \<and> slide_text_of n sl =
         Inr (slide_header n @
              concat (map (\<lambda>r. record_text n (info_shape r) @ [10]) (emitting_records n infos)))"
proof -
  let ?S = "placeholder_idx_list (map info_shape recs)"
  let ?L = "placeholder_idx_list (layout_placeholders (slide_layout sl))"
  let ?M = "placeholder_idx_list (master_placeholders (slide_master (slide_layout sl)))"
  let ?infos = "spec_all_records sl"
  have u: "first_unrecognized (shapes sl) = None"
    and r: "spec_slide_records sl = recs"
    using slide_records_returned [OF fl] by simp_all
  have S: "placeholder_idxs recs = set ?S"
    by (rule placeholder_idxs_eq)
  have cnt: "\<And>j. idx_count j ?infos =
       count_list ?S j + (if j \<notin> set ?S \<and> j \<in> set ?L then 1 else 0)
       + (if j \<in> set ?S \<or> j \<in> set ?L then 0 else count_list ?M j)"
    using idx_count_spec_all_records [OF wf] by (simp only: r S)
  have one: "idx_count j ?infos = 1" if "(j \<in> set ?L \<or> j \<in> set ?M) \<and> j \<notin> set ?S" for j
  proof -
    from that have s0: "count_list ?S j = 0" by (simp add: count_list_0_iff)
    show ?thesis
    proof (cases "j \<in> set ?L")
      case True
      with that s0 show ?thesis by (simp add: cnt)
    next
      case False
      with that have "j \<in> set ?M" by simp
      then have "count_list ?M j = 1" using dm by (simp add: count_list_distinct_mem)
      with False that s0 show ?thesis by (simp add: cnt)
    qed
  qed
  have le: "idx_count j ?infos \<le> 1" for j
  proof (cases "j \<in> set ?S")
    case True
    then show ?thesis using count_list_distinct_le [OF ds, of j] by (simp add: cnt)
  next
    case False
    then have s0: "count_list ?S j = 0" by (simp add: count_list_0_iff)
    show ?thesis
      using count_list_distinct_le [OF dm, of j] False s0 by (simp add: cnt)
  qed
  have em: "idx_count j (emitting_records n ?infos) \<le> 1" for j
    using idx_count_emitting_le [of j n ?infos] le [of j] by simp
  have "all_shape_infos sl = Inr ?infos" using wf u by (rule all_shape_infos_spec)
  moreover have "slide_text_of n sl =
         Inr (slide_header n @
              concat (map (\<lambda>r. record_text n (info_shape r) @ [10]) (emitting_records n ?infos)))"
    using wf u by (rule slide_text_of_closed)
  ultimately show ?thesis using one le em by blast
qed

theorem backfill_once_example:
  "wf_slide example_slide
   \<and> get_shapes_with_abs_position (shapes example_slide) 0 0 =
       Inr [\<lparr>info_shape = example_title, info_top = 20, info_left = 5\<rparr>,
            \<lparr>info_shape = example_grouped, info_top = 20, info_left = 10\<rparr>,
            \<lparr>info_shape = example_picture, info_top = 0, info_left = 0\<rparr>]
   \<and> distinct (placeholder_idx_list (layout_placeholders (slide_layout example_slide)))
   \<and> distinct (placeholder_idx_list
        (master_placeholders (slide_master (slide_layout example_slide))))
   \<and> (\<exists>infos. all_shape_infos example_slide = Inr infos
        \<and> idx_count 12 infos = 1 \<and> idx_count 11 infos = 1 \<and> idx_count 0 infos \<le> 1
        \<and> idx_count 12 (emitting_records 4 infos) \<le> 1)"
proof -
  let ?recs = "[\<lparr>info_shape = example_title, info_top = 20, info_left = 5\<rparr>,
            \<lparr>info_shape = example_grouped, info_top = 20, info_left = 10\<rparr>,
            \<lparr>info_shape = example_picture, info_top = 0, info_left = 0\<rparr>]"
  have h: "wf_slide example_slide"
    by (simp add: wf_slide_def example_defs is_placeholder_def)
  have fl: "get_shapes_with_abs_position (shapes example_slide) 0 0 = Inr ?recs"
    by (simp add: example_defs emu_or_0_def)
  have s: "placeholder_idx_list (map info_shape ?recs) = [0]"
    by (simp add: example_defs pil_Cons)
  have l: "placeholder_idx_list (layout_placeholders (slide_layout example_slide)) = [0, 12]"
    by (simp add: example_defs pil_Cons)
  have m: "placeholder_idx_list
        (master_placeholders (slide_master (slide_layout example_slide))) = [12, 11]"
    by (simp add: example_defs pil_Cons)
  have ds: "distinct (placeholder_idx_list (map info_shape ?recs))"
    by (simp only: s) simp
  have dl: "distinct (placeholder_idx_list (layout_placeholders (slide_layout example_slide)))"
    by (simp add: l)
  have dm: "distinct (placeholder_idx_list
        (master_placeholders (slide_master (slide_layout example_slide))))"
    by (simp add: m)
  from backfill_represents_each_inherited_placeholder_once [OF h fl ds dl dm, of 4]
  obtain infos where a: "all_shape_infos example_slide = Inr infos"
    and one: "\<forall>j. (j \<in> set (placeholder_idx_list (layout_placeholders (slide_layout example_slide)))
            \<or> j \<in> set (placeholder_idx_list
                         (master_placeholders (slide_master (slide_layout example_slide)))))
           \<and> j \<notin> set (placeholder_idx_list (map info_shape ?recs))
           \<longrightarrow> idx_count j infos = 1"
    and le: "\<forall>j. idx_count j infos \<le> 1"
    and em: "\<forall>j. idx_count j (emitting_records 4 infos) \<le> 1"
    by blast
  from one have "idx_count 12 infos = 1" and "idx_count 11 infos = 1"
    unfolding s l m by simp_all
  with h fl dl dm a le em show ?thesis by blast
qed

text \<open>
  Claim C4. On a slide whose flattening returns and does not supply the placeholder
  index \<open>j\<close>, while both its
  layout and the layout's master define a placeholder with that index, the layout loop
  appends exactly one record with index \<open>j\<close>, the record of the layout's first placeholder
  with that index, and the master loop, which runs on the extended covered set, appends no
  record with index \<open>j\<close>.
\<close>

theorem layout_placeholder_wins_over_master:
  assumes wf: "wf_slide sl"
    and fl: "get_shapes_with_abs_position (shapes sl) 0 0 = Inr recs"
    and ns: "j \<notin> placeholder_idxs recs"
    and jl: "j \<in> set (placeholder_idx_list (layout_placeholders (slide_layout sl)))"
    and jm: "j \<in> set (placeholder_idx_list
                        (master_placeholders (slide_master (slide_layout sl))))"
  shows "\<exists>la ma covered s.
       backfill_layout (layout_placeholders (slide_layout sl)) recs (placeholder_idxs recs) =
         Inr (recs @ la, covered)
     \<and> backfill_master (master_placeholders (slide_master (slide_layout sl)))
         (recs @ la) covered =
         Inr (recs @ la @ ma)
     \<and> all_shape_infos sl = Inr (recs @ la @ ma)
     \<and> find (has_idx j) (layout_placeholders (slide_layout sl)) = Some s
     \<and> filter (\<lambda>r. has_idx j (info_shape r)) la = [placeholder_record s]
     \<and> filter (\<lambda>r. has_idx j (info_shape r)) ma = []"
proof -
  let ?lps = "layout_placeholders (slide_layout sl)"
  let ?mps = "master_placeholders (slide_master (slide_layout sl))"
  let ?la = "map placeholder_record (spec_layout_additions ?lps (placeholder_idxs recs))"
  let ?cov = "placeholder_idxs recs \<union> set (placeholder_idx_list ?lps)"
  let ?ma = "map placeholder_record (spec_master_additions ?mps ?cov)"
  have u: "first_unrecognized (shapes sl) = None"
    and r: "spec_slide_records sl = recs"
    using slide_records_returned [OF fl] by simp_all
  from wf have wl: "list_all is_placeholder ?lps" and wm: "list_all is_placeholder ?mps"
    by (simp_all add: wf_slide_def)
  have 1: "backfill_layout ?lps recs (placeholder_idxs recs) = Inr (recs @ ?la, ?cov)"
    using wl by (rule backfill_layout_closed)
  have 2: "backfill_master ?mps (recs @ ?la) ?cov = Inr (recs @ ?la @ ?ma)"
    using backfill_master_closed [OF wm, of "recs @ ?la" ?cov] by simp
  have 3: "all_shape_infos sl = Inr (recs @ ?la @ ?ma)"
    using all_shape_infos_closed [OF wf u] by (simp only: r)
  from filter_idx_layout_additions [OF wl ns jl] obtain s
    where 4: "find (has_idx j) ?lps = Some s"
      and 5: "filter (\<lambda>r. has_idx j (info_shape r)) ?la = [placeholder_record s]"
    by blast
  have "idx_count j ?ma = 0"
    using jl by (simp add: idx_count_master_additions)
  then have 6: "filter (\<lambda>r. has_idx j (info_shape r)) ?ma = []"
    by (simp only: idx_count_def length_0_conv)
  from 1 2 3 4 5 6 show ?thesis by blast
qed

theorem layout_wins_example:
  "wf_slide example_slide
   \<and> get_shapes_with_abs_position (shapes example_slide) 0 0 =
       Inr [\<lparr>info_shape = example_title, info_top = 20, info_left = 5\<rparr>,
            \<lparr>info_shape = example_grouped, info_top = 20, info_left = 10\<rparr>,
            \<lparr>info_shape = example_picture, info_top = 0, info_left = 0\<rparr>]
   \<and> 12 \<in> set (placeholder_idx_list (layout_placeholders (slide_layout example_slide)))
   \<and> 12 \<in> set (placeholder_idx_list
                  (master_placeholders (slide_master (slide_layout example_slide))))
   \<and> (\<exists>la ma. all_shape_infos example_slide =
                 Inr ([\<lparr>info_shape = example_title, info_top = 20, info_left = 5\<rparr>,
                       \<lparr>info_shape = example_grouped, info_top = 20, info_left = 10\<rparr>,
                       \<lparr>info_shape = example_picture, info_top = 0, info_left = 0\<rparr>] @ la @ ma)
        \<and> filter (\<lambda>r. has_idx 12 (info_shape r)) la = [placeholder_record example_layout_number]
        \<and> filter (\<lambda>r. has_idx 12 (info_shape r)) ma = [])"
proof -
  let ?recs = "[\<lparr>info_shape = example_title, info_top = 20, info_left = 5\<rparr>,
            \<lparr>info_shape = example_grouped, info_top = 20, info_left = 10\<rparr>,
            \<lparr>info_shape = example_picture, info_top = 0, info_left = 0\<rparr>]"
  have h: "wf_slide example_slide"
    by (simp add: wf_slide_def example_defs is_placeholder_def)
  have fl: "get_shapes_with_abs_position (shapes example_slide) 0 0 = Inr ?recs"
    by (simp add: example_defs emu_or_0_def)
  have ns: "12 \<notin> placeholder_idxs ?recs"
    by (simp add: example_defs)
  have jl: "12 \<in> set (placeholder_idx_list (layout_placeholders (slide_layout example_slide)))"
    by (simp add: example_defs pil_Cons)
  have jm: "12 \<in> set (placeholder_idx_list
                  (master_placeholders (slide_master (slide_layout example_slide))))"
    by (simp add: example_defs pil_Cons)
  have f: "find (has_idx 12) (layout_placeholders (slide_layout example_slide)) =
             Some example_layout_number"
    by (simp add: example_defs has_idx_def)
  from layout_placeholder_wins_over_master [OF h fl ns jl jm] f
  have "\<exists>la ma. all_shape_infos example_slide = Inr (?recs @ la @ ma)
        \<and> filter (\<lambda>r. has_idx 12 (info_shape r)) la = [placeholder_record example_layout_number]
        \<and> filter (\<lambda>r. has_idx 12 (info_shape r)) ma = []"
    by auto
  with h fl jl jm show ?thesis by blast
qed





text \<open>
  Claim C7. When the parser returns a document, the extractor returns a text exactly when
  no slide raises (the type of every shape can be read and the placeholder collections
  hold placeholders), and the text it returns is the slides' blocks, one per slide and in
  slide order, joined by a newline. The block of the \<open>k\<close>-th slide (counting from 1) is the
  header line \<^verbatim>\<open>=== SLIDE k ===\<close> with its newline, followed by the slide's non-empty texts
  in sorted order, each with one newline after it. Every block ends with a newline, so the
  joining newline leaves exactly one empty line between two consecutive blocks.
\<close>

theorem output_is_slide_blocks_joined_by_blank_line:
  assumes "Presentation file_path = Inr p"
  shows "(spec_first_error p = None \<longrightarrow>
           extract_text_from_pptx Presentation file_path = Inr (join [10] (spec_blocks p)))
     \<and> (\<forall>text. extract_text_from_pptx Presentation file_path = Inr text \<longrightarrow>
           spec_first_error p = None \<and> text = join [10] (spec_blocks p))
     \<and> length (spec_blocks p) = length p
     \<and> (\<forall>k < length p.
           spec_blocks p ! k =
             py ''=== SLIDE '' @ str (Suc k) @ py '' ==='' @ [10]
             @ concat (map (\<lambda>t. t @ [10])
                         (spec_slide_texts (Suc k) (spec_all_records (p ! k)))))
     \<and> (\<forall>b \<in> set (spec_blocks p). b \<noteq> [] \<and> last b = 10)
     \<and> (\<forall>b c rest. join [10] (b # c # rest) = b @ [10] @ join [10] (c # rest))"
proof (intro conjI allI impI ballI)
  assume "spec_first_error p = None"
  then show "extract_text_from_pptx Presentation file_path = Inr (join [10] (spec_blocks p))"
    using extract_outcome [of Presentation file_path p, OF assms] by simp
next
  fix result
  assume t: "extract_text_from_pptx Presentation file_path = Inr result"
  then show "spec_first_error p = None"
    using extract_outcome [of Presentation file_path p, OF assms] by (cases "spec_first_error p") simp_all
  with t show "result = join [10] (spec_blocks p)"
    using extract_outcome [of Presentation file_path p, OF assms] by simp
next
  show len: "length (spec_blocks p) = length p"
    by (simp add: spec_blocks_def del: upt_Suc)
next
  fix k
  assume k: "k < length p"
  show "spec_blocks p ! k =
             py ''=== SLIDE '' @ str (Suc k) @ py '' ==='' @ [10]
             @ concat (map (\<lambda>t. t @ [10])
                         (spec_slide_texts (Suc k) (spec_all_records (p ! k))))"
  proof -
    from k have kz: "k < length (zip [1..<Suc (length p)] p)"
      by (simp del: upt_Suc)
    from k have "[1..<Suc (length p)] ! k = 1 + k"
      by (intro nth_upt) simp
    with k have z: "zip [1..<Suc (length p)] p ! k = (Suc k, p ! k)"
      by (simp add: nth_zip del: upt_Suc)
    have "spec_blocks p ! k =
        (\<lambda>(n, sl). spec_block n (spec_slide_texts n (spec_all_records sl)))
          (zip [1..<Suc (length p)] p ! k)"
      unfolding spec_blocks_def using kz by (rule nth_map)
    then show ?thesis
      by (simp only: z prod.case spec_block_def)
  qed
next
  fix b
  assume "b \<in> set (spec_blocks p)"
  then obtain n texts where b: "b = spec_block n texts"
    by (auto simp: spec_blocks_def)
  show "b \<noteq> []" by (simp add: b spec_block_def py_def)
  show "last b = 10"
  proof (cases "texts = []")
    case True
    then show ?thesis by (simp add: b spec_block_def)
  next
    case False
    then have "concat (map (\<lambda>t. t @ [10]) texts) \<noteq> []" by (cases texts) simp_all
    moreover from False have "last (concat (map (\<lambda>t. t @ [10]) texts)) = 10"
      by (rule last_concat_lines)
    ultimately show ?thesis by (simp add: b spec_block_def)
  qed
next
  fix b c rest
  show "join [10] (b # c # rest) = b @ [10::nat] @ join [10] (c # rest)"
    by simp
qed

theorem end_to_end_example:
  "example_parser True = Inr example_doc
   \<and> spec_first_error example_doc = None
   \<and> extract_text_from_pptx example_parser True =
       Inr (py ''=== SLIDE 1 ===\<newline>Intro\<newline>Welcome\<newline>\<newline>=== SLIDE 2 ===\<newline>2\<newline>'')"
proof -
  have h1: "example_parser True = Inr example_doc"
    by (simp add: example_parser_def)
  have h2: "spec_first_error example_doc = None"
    by (simp add: spec_slide_error_def wf_slide_def example_defs is_placeholder_def)
  have s1: "str (Suc 0) = [49]" and s2: "str (Suc (Suc 0)) = [50]"
    by (simp_all add: str.simps)
  have b: "spec_blocks example_doc =
     [py ''=== SLIDE 1 ===\<newline>Intro\<newline>Welcome\<newline>'', py ''=== SLIDE 2 ===\<newline>2\<newline>'']"
    by (simp add: spec_blocks_def spec_block_def spec_slide_texts_def spec_all_records_def
        spec_slide_records_def spec_record_def
        spec_master_additions_def placeholder_idx_list_def map_filter_simps example_defs
        eval_defs s1 s2)
  from output_is_slide_blocks_joined_by_blank_line
         [of example_parser True example_doc, OF h1, THEN conjunct1, rule_format, OF h2]
  have "extract_text_from_pptx example_parser True = Inr (join [10] (spec_blocks example_doc))" .
  then have "extract_text_from_pptx example_parser True =
       Inr (py ''=== SLIDE 1 ===\<newline>Intro\<newline>Welcome\<newline>\<newline>=== SLIDE 2 ===\<newline>2\<newline>'')"
    by (simp add: b py_def)
  with h1 h2 show ?thesis by simp
qed




text \<open>
  Claim C10, as amended. A request to \<^verbatim>\<open>/api/convert-to-text\<close> whose content is not longer
  than \<^verbatim>\<open>MAX_CONTENT_LENGTH\<close> and that has no part \<^verbatim>\<open>file\<close>, or whose file name is empty, or
  whose file name is not some text, a dot, and an extension without dot that is \<^verbatim>\<open>pptx\<close> or
  \<^verbatim>\<open>ppt\<close> up to case, is answered with a JSON error object and status 400, and nothing is
  done to the collaborators: the upload is not saved and the extractor is not called.
\<close>

theorem rejected_upload_returns_400_without_extraction:
  assumes "content_length req \<le> MAX_CONTENT_LENGTH"
    and "files req (py ''file'') = None
     \<or> (\<exists>file. files req (py ''file'') = Some file
           \<and> (filename file = [] \<or> \<not> spec_has_allowed_extension (filename file)))"
  shows "status (convert_pptx_to_text secure_filename save extract exists req) = 400
     \<and> (\<exists>msg. body (convert_pptx_to_text secure_filename save extract exists req) = ErrorJson msg)
     \<and> effects (convert_pptx_to_text secure_filename save extract exists req) = []"
  using assms
  by (auto simp: convert_pptx_to_text_def allowed_file_iff_spec)

theorem rejected_upload_example:
  "content_length (example_request (py ''notes.txt'')) \<le> MAX_CONTENT_LENGTH
   \<and> \<not> spec_has_allowed_extension (py ''notes.txt'')
   \<and> convert_pptx_to_text (\<lambda>n. n) (\<lambda>f p. None) (\<lambda>p. Inr (py ''text'')) (\<lambda>p. True)
        (example_request (py ''notes.txt'')) =
       \<lparr>body = ErrorJson (py ''Invalid file or file type''), status = 400, effects = []\<rparr>
   \<and> status (convert_pptx_to_text (\<lambda>n. n) (\<lambda>f p. None) (\<lambda>p. Inr (py ''text'')) (\<lambda>p. True)
        \<lparr>content_length = 0, files = Map.empty\<rparr>) = 400
   \<and> status (convert_pptx_to_text (\<lambda>n. n) (\<lambda>f p. None) (\<lambda>p. Inr (py ''text'')) (\<lambda>p. True)
        (example_request (py ''deck.PPTX''))) = 200"
proof -
  have n: "\<not> spec_has_allowed_extension (py ''notes.txt'')"
    by (simp add: allowed_file_iff_spec [symmetric] allowed_file_def rsplit1_def py_def
        lower_def lower_char_def ALLOWED_EXTENSIONS_def)
  have l: "content_length (example_request (py ''notes.txt'')) \<le> MAX_CONTENT_LENGTH"
    by (simp add: example_request_def MAX_CONTENT_LENGTH_def)
  have l0: "content_length \<lparr>content_length = 0, files = Map.empty\<rparr> \<le> MAX_CONTENT_LENGTH"
    by simp
  have h: "files (example_request (py ''notes.txt'')) (py ''file'') = None
     \<or> (\<exists>file. files (example_request (py ''notes.txt'')) (py ''file'') = Some file
           \<and> (filename file = [] \<or> \<not> spec_has_allowed_extension (filename file)))"
    using n by (simp add: example_request_def)
  have e: "files \<lparr>content_length = 0, files = Map.empty\<rparr> (py ''file'') = None
     \<or> (\<exists>file. files \<lparr>content_length = 0, files = Map.empty\<rparr> (py ''file'') = Some file
           \<and> (filename file = [] \<or> \<not> spec_has_allowed_extension (filename file)))"
    by simp
  have m: "body (convert_pptx_to_text (\<lambda>n. n) (\<lambda>f p. None) (\<lambda>p. Inr (py ''text'')) (\<lambda>p. True)
        (example_request (py ''notes.txt''))) = ErrorJson (py ''Invalid file or file type'')"
    by (simp add: convert_pptx_to_text_def example_request_def allowed_file_def rsplit1_def
        py_def lower_def lower_char_def ALLOWED_EXTENSIONS_def MAX_CONTENT_LENGTH_def)
  have ok: "status (convert_pptx_to_text (\<lambda>n. n) (\<lambda>f p. None) (\<lambda>p. Inr (py ''text'')) (\<lambda>p. True)
        (example_request (py ''deck.PPTX''))) = 200"
    by (simp add: convert_pptx_to_text_def example_request_def allowed_file_def rsplit1_def
        py_def lower_def lower_char_def ALLOWED_EXTENSIONS_def Let_def MAX_CONTENT_LENGTH_def)
  from rejected_upload_returns_400_without_extraction
         [OF l h, of "\<lambda>n. n" "\<lambda>f p. None" "\<lambda>p. Inr (py ''text'')" "\<lambda>p. True"]
       rejected_upload_returns_400_without_extraction
         [OF l0 e, of "\<lambda>n. n" "\<lambda>f p. None" "\<lambda>p. Inr (py ''text'')" "\<lambda>p. True"]
       n l m ok
  show ?thesis by simp
qed

text \<open>
  Claim C10 as it was stated fails: a request without a part \<^verbatim>\<open>file\<close> whose content is
  one byte longer than \<^verbatim>\<open>MAX_CONTENT_LENGTH\<close> is answered with status 413, not 400.
\<close>

theorem oversize_request_without_file_gets_413:
  "files \<lparr>content_length = 16777217, files = Map.empty\<rparr> (py ''file'') = None
   \<and> convert_pptx_to_text (\<lambda>n. n) (\<lambda>f p. None) (\<lambda>p. Inr (py ''text'')) (\<lambda>p. True)
        \<lparr>content_length = 16777217, files = Map.empty\<rparr> =
       \<lparr>body = ErrorJson (py ''File too large. Maximum size is 16MB''), status = 413,
        effects = []\<rparr>"
  by (simp add: convert_pptx_to_text_def MAX_CONTENT_LENGTH_def too_large_def)

end
